theory Spec2Isabelle
  imports Complex_Main "HOL-Library.Multiset"
begin

section \<open>Products (\<^verbatim>\<open>lib/api.ts\<close>): data\<close>

text \<open>
  A JavaScript \<^verbatim>\<open>number\<close> that comes out of a JSON document is a finite double; the
  only thing the code does with prices is to sort by the sign of a difference, and the
  sign of a floating-point difference of two such numbers is the sign of the exact
  difference. Numbers are therefore modelled as \<^typ>\<open>real\<close>. An optional field
  (\<^verbatim>\<open>rating?: number\<close>) is an \<^typ>\<open>'a option\<close>. The field \<^verbatim>\<open>id\<close> is called
  \<open>pid\<close> here, since \<open>id\<close> is the identity function of HOL.
\<close>

type_synonym number = real

record Product =
  pid :: number
  title :: string
  description :: string
  price :: number
  discountPercentage :: "number option"
  rating :: "number option"
  stock :: "number option"
  brand :: "string option"
  category :: string
  thumbnail :: string
  images :: "string list option"

section \<open>Sorting (\<^verbatim>\<open>lib/sort.ts\<close>)\<close>

datatype SortKey = PriceAsc | PriceDesc | TitleAsc | TitleDesc

text \<open>The string literal each member of the union type \<^verbatim>\<open>SortKey\<close> is at run time.\<close>

fun sortKeyValue :: "SortKey \<Rightarrow> string" where
  "sortKeyValue PriceAsc = ''price-asc''"
| "sortKeyValue PriceDesc = ''price-desc''"
| "sortKeyValue TitleAsc = ''title-asc''"
| "sortKeyValue TitleDesc = ''title-desc''"

record SortOption =
  opt_value :: SortKey
  opt_label :: string

definition SORT_OPTIONS :: "SortOption list" where
  "SORT_OPTIONS =
     [\<lparr>opt_value = PriceAsc, opt_label = ''price - low to high''\<rparr>,
      \<lparr>opt_value = PriceDesc, opt_label = ''price - high to low''\<rparr>,
      \<lparr>opt_value = TitleAsc, opt_label = ''title - A to Z''\<rparr>,
      \<lparr>opt_value = TitleDesc, opt_label = ''title - Z to A''\<rparr>]"

definition DEFAULT_SORT :: SortKey where
  "DEFAULT_SORT = TitleAsc"

text \<open>
  \<^verbatim>\<open>isSortKey(v: unknown)\<close> is called on a \<^verbatim>\<open>string | null\<close>: \<open>None\<close> is \<^verbatim>\<open>null\<close>,
  whose \<^verbatim>\<open>typeof\<close> is not \<^verbatim>\<open>"string"\<close>.
\<close>

definition isSortKey :: "string option \<Rightarrow> bool" where
  "isSortKey v =
     (case v of
        None \<Rightarrow> False
      | Some s \<Rightarrow> list_ex (\<lambda>o'. sortKeyValue (opt_value o') = s) SORT_OPTIONS)"


subsection \<open>\<^verbatim>\<open>Array.prototype.sort\<close> with a comparison function\<close>

text \<open>
  ECMAScript requires \<^verbatim>\<open>Array.prototype.sort\<close> to be a stable sort: with a consistent
  comparison function \<open>c\<close> the result is the one permutation of the array that is ordered
  by \<open>c\<close> and keeps elements with \<open>c a b = 0\<close> in their original order. Insertion from
  the right, placing an element before the first one it does not come after, computes
  that permutation.
\<close>

fun insert_cmp :: "('a \<Rightarrow> 'a \<Rightarrow> number) \<Rightarrow> 'a \<Rightarrow> 'a list \<Rightarrow> 'a list" where
  "insert_cmp c x [] = [x]"
| "insert_cmp c x (y # ys) = (if c x y \<le> 0 then x # y # ys else y # insert_cmp c x ys)"

fun array_sort :: "('a \<Rightarrow> 'a \<Rightarrow> number) \<Rightarrow> 'a list \<Rightarrow> 'a list" where
  "array_sort c [] = []"
| "array_sort c (x # xs) = insert_cmp c x (array_sort c xs)"

text \<open>
  The conditions ECMAScript puts on a consistent comparison function. It requires
  \<^verbatim>\<open>String.prototype.localeCompare\<close> to be one.
\<close>

definition consistent_comparator :: "('a \<Rightarrow> 'a \<Rightarrow> number) \<Rightarrow> bool" where
  "consistent_comparator c =
     ((\<forall>a. c a a = 0) \<and>
      (\<forall>a b. c a b = 0 \<longrightarrow> c b a = 0) \<and>
      (\<forall>a b d. c a b = 0 \<and> c b d = 0 \<longrightarrow> c a d = 0) \<and>
      (\<forall>a b d. c a b < 0 \<and> c b d < 0 \<longrightarrow> c a d < 0) \<and>
      (\<forall>a b d. c a b > 0 \<and> c b d > 0 \<longrightarrow> c a d > 0))"

subsection \<open>\<^verbatim>\<open>sortProducts\<close>\<close>

text \<open>
  \<open>localeCompare\<close> is the platform's \<^verbatim>\<open>String.prototype.localeCompare\<close>, a parameter
  of the model. \<^verbatim>\<open>[...items]\<close> copies the array; as a function of values the copy is the
  list itself (the store-level model is \<open>sortProducts_heap\<close> below).
\<close>

definition sortProducts ::
    "(string \<Rightarrow> string \<Rightarrow> number) \<Rightarrow> Product list \<Rightarrow> SortKey \<Rightarrow> Product list" where
  "sortProducts localeCompare items srt =
     (let copy = items in
      case srt of
        PriceAsc \<Rightarrow> array_sort (\<lambda>a b. price a - price b) copy
      | PriceDesc \<Rightarrow> array_sort (\<lambda>a b. price b - price a) copy
      | TitleAsc \<Rightarrow> array_sort (\<lambda>a b. localeCompare (title a) (title b)) copy
      | TitleDesc \<Rightarrow> array_sort (\<lambda>a b. localeCompare (title b) (title a)) copy)"

text \<open>
  The same function on a store of arrays, where an array is known by its address (its
  index in the store): \<^verbatim>\<open>[...items]\<close> allocates a new array, \<^verbatim>\<open>copy.sort\<close> sorts that
  array in place, and the address of the copy is returned.
\<close>

type_synonym heap = "Product list list"

definition alloc :: "heap \<Rightarrow> Product list \<Rightarrow> heap \<times> nat" where
  "alloc h v = (h @ [v], length h)"

definition sort_in_place :: "(Product \<Rightarrow> Product \<Rightarrow> number) \<Rightarrow> nat \<Rightarrow> heap \<Rightarrow> heap \<times> nat" where
  "sort_in_place c r h = (h[r := array_sort c (h ! r)], r)"

definition sortProducts_heap ::
    "(string \<Rightarrow> string \<Rightarrow> number) \<Rightarrow> heap \<Rightarrow> nat \<Rightarrow> SortKey \<Rightarrow> heap \<times> nat" where
  "sortProducts_heap localeCompare h items srt =
     (let (h1, copy) = alloc h (h ! items) in
      case srt of
        PriceAsc \<Rightarrow> sort_in_place (\<lambda>a b. price a - price b) copy h1
      | PriceDesc \<Rightarrow> sort_in_place (\<lambda>a b. price b - price a) copy h1
      | TitleAsc \<Rightarrow> sort_in_place (\<lambda>a b. localeCompare (title a) (title b)) copy h1
      | TitleDesc \<Rightarrow> sort_in_place (\<lambda>a b. localeCompare (title b) (title a)) copy h1)"

section \<open>The products page: visible products\<close>

text \<open>
  \<^verbatim>\<open>Array.prototype.slice(start, end)\<close>: a negative index counts from the end, and both
  are clamped to the array.
\<close>

definition array_slice :: "'a list \<Rightarrow> int \<Rightarrow> int \<Rightarrow> 'a list" where
  "array_slice xs start fin =
     (let len = int (length xs);
          k = (if start < 0 then max (len + start) 0 else min start len);
          final = (if fin < 0 then max (len + fin) 0 else min fin len)
      in take (nat (final - k)) (drop (nat k) xs))"

text \<open>
  \<open>productsData\<close> is \<^verbatim>\<open>productsQuery.data.value\<close>, \<open>None\<close> while it is undefined. The
  sort passed on is \<^verbatim>\<open>selectedSort.value\<close>, as the \<^verbatim>\<open>SortKey\<close> that the invariant of the
  filter state (below) makes it.
\<close>

definition visibleProducts ::
    "(string \<Rightarrow> string \<Rightarrow> number) \<Rightarrow> Product list option \<Rightarrow> SortKey \<Rightarrow> Product list" where
  "visibleProducts localeCompare productsData selectedSort =
     (let items = (case productsData of None \<Rightarrow> [] | Some d \<Rightarrow> d);
          sorted = sortProducts localeCompare items selectedSort
      in array_slice sorted 0 10)"

section \<open>The API client (\<^verbatim>\<open>lib/api.ts\<close>)\<close>

text \<open>
  What \<^verbatim>\<open>JSON.parse\<close> can give. The casts \<^verbatim>\<open>as T\<close> of the client are not checked at run
  time, so a parsed body is any JSON value. An object is held as the list of its
  properties, each key once.
\<close>

datatype json_value =
  JNull | JBool bool | JNum number | JStr string | JArr "json_value list"
| JObj "(string \<times> json_value) list"

text \<open>
  What the client sees of an HTTP response: the status code, and what \<^verbatim>\<open>res.json()\<close>
  gives, \<open>None\<close> when the body does not parse and the promise rejects. \<^verbatim>\<open>res.ok\<close> is, by
  the Fetch standard, a status from 200 to 299.
\<close>

record Response =
  status :: nat
  json :: "json_value option"

definition ok :: "Response \<Rightarrow> bool" where
  "ok res = (200 \<le> status res \<and> status res \<le> 299)"

text \<open>
  The ways a call can fail: \<^verbatim>\<open>fetch\<close> itself rejects (no response), the
  \<^verbatim>\<open>Error("Request failed (status)")\<close> thrown by \<^verbatim>\<open>fetchJson\<close>, the rejection of
  \<^verbatim>\<open>res.json()\<close>, the \<^verbatim>\<open>TypeError\<close> of reading a property of \<^verbatim>\<open>null\<close>, and the
  \<^verbatim>\<open>URIError\<close> of \<^verbatim>\<open>encodeURIComponent\<close>.
\<close>

datatype error = NetworkError | RequestFailed nat | BodyError | TypeError | URIError

definition BASE :: string where
  "BASE = ''https://dummyjson.com''"

text \<open>
  The network is a function \<open>fetch\<close> from the URL to a response or a failure; the list of
  URLs requested so far is passed along and returned, so that what a call requests can
  be stated.
\<close>

definition fetchJson ::
    "(string \<Rightarrow> error + Response) \<Rightarrow> string \<Rightarrow> string list \<Rightarrow> (error + json_value) \<times> string list" where
  "fetchJson fetch url requests =
     (let requests' = requests @ [url] in
      case fetch url of
        Inl e \<Rightarrow> (Inl e, requests')
      | Inr res \<Rightarrow>
          if \<not> ok res then (Inl (RequestFailed (status res)), requests')
          else (case json res of
                  None \<Rightarrow> (Inl BodyError, requests')
                | Some v \<Rightarrow> (Inr v, requests')))"

definition getCategories ::
    "(string \<Rightarrow> error + Response) \<Rightarrow> string list \<Rightarrow> (error + json_value) \<times> string list" where
  "getCategories fetch requests = fetchJson fetch (BASE @ ''/products/categories'') requests"

text \<open>A natural number in a template literal: its decimal digits.\<close>

fun decimal :: "nat \<Rightarrow> string" where
  "decimal n =
     (if n < 10 then [char_of (48 + n)]
      else decimal (n div 10) @ [char_of (48 + n mod 10)])"

declare decimal.simps [simp del]

text \<open>
  The argument of \<^verbatim>\<open>encodeURIComponent\<close> is a JavaScript string: a sequence of UTF-16 code
  units, here natural numbers below 65536. ECMAScript's \<^verbatim>\<open>Encode\<close> keeps letters, digits
  and \<^verbatim>\<open>- _ . ! ~ * ' ( )\<close>; at any other unit it reads a code point (one unit, or a
  leading and a trailing surrogate), throws a \<^verbatim>\<open>URIError\<close> when the surrogate is not
  paired, and otherwise writes each octet of the code point's UTF-8 form as \<^verbatim>\<open>%XX\<close> in
  upper-case hexadecimal. The result has ASCII characters only. (Everywhere else the
  code only compares and copies strings, and they are held as lists of characters.)
\<close>

type_synonym js_string = "nat list"

definition uriUnreserved :: "nat \<Rightarrow> bool" where
  "uriUnreserved u =
     (u \<in> set (map of_char
        (''ABCDEFGHIJKLMNOPQRSTUVWXYZabcdefghijklmnopqrstuvwxyz0123456789-_.!~*()'' @
         [CHR 0x27])))"

definition isLeadingSurrogate :: "nat \<Rightarrow> bool" where
  "isLeadingSurrogate u = (0xD800 \<le> u \<and> u \<le> 0xDBFF)"

definition isTrailingSurrogate :: "nat \<Rightarrow> bool" where
  "isTrailingSurrogate u = (0xDC00 \<le> u \<and> u \<le> 0xDFFF)"

definition utf16SurrogatePairToCodePoint :: "nat \<Rightarrow> nat \<Rightarrow> nat" where
  "utf16SurrogatePairToCodePoint lead trail =
     (lead - 0xD800) * 0x400 + (trail - 0xDC00) + 0x10000"

definition utf8_octets :: "nat \<Rightarrow> nat list" where
  "utf8_octets cp =
     (if cp < 0x80 then [cp]
      else if cp < 0x800 then [0xC0 + cp div 0x40, 0x80 + cp mod 0x40]
      else if cp < 0x10000 then
        [0xE0 + cp div 0x1000, 0x80 + cp div 0x40 mod 0x40, 0x80 + cp mod 0x40]
      else
        [0xF0 + cp div 0x40000, 0x80 + cp div 0x1000 mod 0x40, 0x80 + cp div 0x40 mod 0x40,
         0x80 + cp mod 0x40])"

definition hexDigit :: "nat \<Rightarrow> char" where
  "hexDigit n = ''0123456789ABCDEF'' ! (n mod 16)"

definition percentEncode :: "nat list \<Rightarrow> string" where
  "percentEncode octets =
     concat (map (\<lambda>b. [CHR ''%'', hexDigit (b div 16), hexDigit (b mod 16)]) octets)"

fun encodeURIComponent :: "js_string \<Rightarrow> error + string" where
  "encodeURIComponent [] = Inr []"
| "encodeURIComponent [u] =
     (if uriUnreserved u then Inr [char_of u]
      else if isLeadingSurrogate u \<or> isTrailingSurrogate u then Inl URIError
      else Inr (percentEncode (utf8_octets u)))"
| "encodeURIComponent (u # v # vs) =
     (if uriUnreserved u then
        (case encodeURIComponent (v # vs) of Inl e \<Rightarrow> Inl e | Inr r \<Rightarrow> Inr (char_of u # r))
      else if isTrailingSurrogate u then Inl URIError
      else if isLeadingSurrogate u then
        (if isTrailingSurrogate v then
           (case encodeURIComponent vs of
              Inl e \<Rightarrow> Inl e
            | Inr r \<Rightarrow>
                Inr (percentEncode (utf8_octets (utf16SurrogatePairToCodePoint u v)) @ r))
         else Inl URIError)
      else
        (case encodeURIComponent (v # vs) of
           Inl e \<Rightarrow> Inl e
         | Inr r \<Rightarrow> Inr (percentEncode (utf8_octets u) @ r)))"

text \<open>
  A string is well formed (\<^verbatim>\<open>String.prototype.isWellFormed\<close>) when it has no unpaired
  surrogate: every leading surrogate is followed by a trailing one, and every trailing
  one follows a leading one.
\<close>

fun isWellFormed :: "js_string \<Rightarrow> bool" where
  "isWellFormed [] = True"
| "isWellFormed [u] = (\<not> isLeadingSurrogate u \<and> \<not> isTrailingSurrogate u)"
| "isWellFormed (u # v # vs) =
     (if isLeadingSurrogate u then isTrailingSurrogate v \<and> isWellFormed vs
      else \<not> isTrailingSurrogate u \<and> isWellFormed (v # vs))"

text \<open>The code units of a string of ASCII characters.\<close>

definition code_units :: "string \<Rightarrow> js_string" where
  "code_units s = map of_char s"

text \<open>
  \<^verbatim>\<open>data.products\<close>: reading the property of \<^verbatim>\<open>null\<close> throws a \<^verbatim>\<open>TypeError\<close>; an object
  gives the property, \<^verbatim>\<open>undefined\<close> (\<open>None\<close>) when it has none; a boolean, a number, a
  string and an array have no property of that name.
\<close>

fun get_products :: "json_value \<Rightarrow> error + json_value option" where
  "get_products JNull = Inl TypeError"
| "get_products (JObj props) = Inr (map_of props ''products'')"
| "get_products (JBool b) = Inr None"
| "get_products (JNum n) = Inr None"
| "get_products (JStr t) = Inr None"
| "get_products (JArr vs) = Inr None"

text \<open>
  \<^verbatim>\<open>!category\<close> holds for \<^verbatim>\<open>null\<close> and for the empty string. The template literal
  evaluates \<^verbatim>\<open>encodeURIComponent(category)\<close> before \<open>fetchJson\<close> is called, so when it
  throws nothing is requested.
\<close>

definition getProducts ::
    "(string \<Rightarrow> error + Response) \<Rightarrow> js_string option \<Rightarrow> string list \<Rightarrow>
       (error + json_value option) \<times> string list" where
  "getProducts fetch cat requests =
     (let lim = 100 in
      if cat = None \<or> cat = Some [] then
        (case fetchJson fetch (BASE @ ''/products?limit='' @ decimal lim) requests of
           (Inl e, requests') \<Rightarrow> (Inl e, requests')
         | (Inr data, requests') \<Rightarrow> (get_products data, requests'))
      else
        (case encodeURIComponent (the cat) of
           Inl e \<Rightarrow> (Inl e, requests)
         | Inr encoded \<Rightarrow>
             (case fetchJson fetch
                     (BASE @ ''/products/category/'' @ encoded @ ''?limit='' @ decimal lim)
                     requests of
                (Inl e, requests') \<Rightarrow> (Inl e, requests')
              | (Inr data, requests') \<Rightarrow> (get_products data, requests'))))"

section \<open>The products page: filter state and the URL query\<close>

text \<open>
  A value of the router's query object: a string, \<^verbatim>\<open>null\<close>, or an array of those (a
  parameter given several times). A key that is absent reads as \<^verbatim>\<open>undefined\<close>, which is
  \<open>None\<close> of the map.
\<close>

datatype LocationQueryValue = Str string | Arr "string option list" | Null

type_synonym LocationQuery = "string \<rightharpoonup> LocationQueryValue"

fun asSingleString :: "LocationQueryValue option \<Rightarrow> string option" where
  "asSingleString (Some (Str v)) = Some v"
| "asSingleString (Some (Arr [])) = None"
| "asSingleString (Some (Arr (v0 # vs))) = v0"
| "asSingleString (Some Null) = None"
| "asSingleString None = None"

text \<open>
  The reactive state of the page: the route's query, the two refs of the filter state, the
  guard flag, and \<^verbatim>\<open>categoriesQuery.data.value\<close> (\<open>None\<close> while undefined). The ref
  \<^verbatim>\<open>selectedSort\<close> holds a string at run time: its type \<^verbatim>\<open>SortKey\<close> is not checked
  there, and what keeps the string one of the four values is the invariant below.
\<close>

record page =
  route_query :: LocationQuery
  selectedCategory :: "string option"
  selectedSort :: string
  syncing :: bool
  categoriesData :: "string list option"

definition DEFAULT_CATEGORY :: "string option" where
  "DEFAULT_CATEGORY = None"

definition categories :: "page \<Rightarrow> string list" where
  "categories s = (case categoriesData s of None \<Rightarrow> [] | Some d \<Rightarrow> d)"

definition categoryOptions :: "page \<Rightarrow> string list" where
  "categoryOptions s = ''all products'' # categories s"

definition isValidCategoryParam :: "page \<Rightarrow> string option \<Rightarrow> bool" where
  "isValidCategoryParam s param =
     (case param of
        None \<Rightarrow> True
      | Some p \<Rightarrow> if p = [] then True else p \<in> set (categories s))"

text \<open>
  \<^verbatim>\<open>router.replace({ query: q })\<close> of the router library: the navigation makes \<open>q\<close> the
  route's query (the values written here are strings, which the router keeps as they
  are). The application registers no navigation guard, so the navigation does not
  reject. In \<open>writeStateToRoute\<close> the object spread \<^verbatim>\<open>{ ...route.query }\<close> is the query
  itself, \<^verbatim>\<open>delete\<close> removes a key, and the guard flag is set around the navigation.
\<close>

definition router_replace :: "LocationQuery \<Rightarrow> page \<Rightarrow> page" where
  "router_replace q s = s\<lparr>route_query := q\<rparr>"

definition writeStateToRoute :: "page \<Rightarrow> page" where
  "writeStateToRoute s =
     (let q0 = route_query s;
          q1 = (if selectedCategory s = DEFAULT_CATEGORY then q0(''category'' := None)
                else q0(''category'' \<mapsto>
                       (case selectedCategory s of Some c \<Rightarrow> Str c | None \<Rightarrow> Null)));
          q2 = (if selectedSort s = sortKeyValue DEFAULT_SORT then q1(''sort'' := None)
                else q1(''sort'' \<mapsto> Str (selectedSort s)));
          s1 = s\<lparr>syncing := True\<rparr>;
          s2 = router_replace q2 s1
      in s2\<lparr>syncing := False\<rparr>)"

definition readRouteToStateAndClean :: "page \<Rightarrow> page" where
  "readRouteToStateAndClean s =
     (let rawCategory = asSingleString (route_query s ''category'');
          rawSort = asSingleString (route_query s ''sort'');
          nextSort = (if isSortKey rawSort then the rawSort else sortKeyValue DEFAULT_SORT);
          nextCategory =
            (if rawCategory = None \<or> rawCategory = Some [] \<or> rawCategory = Some ''all products''
             then DEFAULT_CATEGORY
             else if length (categories s) > 0 then
               (if isValidCategoryParam s rawCategory then rawCategory else DEFAULT_CATEGORY)
             else DEFAULT_CATEGORY);
          changed = (nextSort \<noteq> selectedSort s \<or> nextCategory \<noteq> selectedCategory s);
          s1 = (if changed then s\<lparr>selectedSort := nextSort, selectedCategory := nextCategory\<rparr>
                else s);
          needsCategoryClean =
            (length (categories s) > 0 \<and> rawCategory \<noteq> None \<and> rawCategory \<noteq> Some [] \<and>
             rawCategory \<noteq> Some ''all products'' \<and> \<not> isValidCategoryParam s rawCategory);
          needsSortClean = (rawSort \<noteq> None \<and> rawSort \<noteq> Some [] \<and> \<not> isSortKey rawSort)
      in if needsCategoryClean \<or> needsSortClean then writeStateToRoute s1 else s1)"

definition onCategoryChange :: "string \<Rightarrow> page \<Rightarrow> page" where
  "onCategoryChange v s =
     (if v = ''all products'' then s\<lparr>selectedCategory := DEFAULT_CATEGORY\<rparr>
      else s\<lparr>selectedCategory := Some v\<rparr>)"



text \<open>A product with the given id, title and price, for concrete evaluations.\<close>

definition sample_product :: "number \<Rightarrow> string \<Rightarrow> number \<Rightarrow> Product" where
  "sample_product i t p =
     \<lparr>pid = i, title = t, description = [], price = p, discountPercentage = None,
      rating = None, stock = None, brand = None, category = [], thumbnail = [],
      images = None\<rparr>"

text \<open>A consistent comparison of strings for concrete evaluations: by length.\<close>

definition compare_length :: "string \<Rightarrow> string \<Rightarrow> number" where
  "compare_length a b = real (length a) - real (length b)"

text \<open>
  What the four keys ask of two neighbours \<open>a\<close>, \<open>b\<close> of the result, \<open>a\<close> standing
  first: nondecreasing price, nonincreasing price, ascending title comparison, descending
  title comparison.
\<close>

fun ordered_by :: "(string \<Rightarrow> string \<Rightarrow> number) \<Rightarrow> SortKey \<Rightarrow> Product \<Rightarrow> Product \<Rightarrow> bool" where
  "ordered_by lc PriceAsc a b = (price a \<le> price b)"
| "ordered_by lc PriceDesc a b = (price a \<ge> price b)"
| "ordered_by lc TitleAsc a b = (lc (title a) (title b) \<le> 0)"
| "ordered_by lc TitleDesc a b = (lc (title a) (title b) \<ge> 0)"

text \<open>Two products compare equal under a key: same price, or titles that compare as 0.\<close>

fun same_key :: "(string \<Rightarrow> string \<Rightarrow> number) \<Rightarrow> SortKey \<Rightarrow> Product \<Rightarrow> Product \<Rightarrow> bool" where
  "same_key lc PriceAsc a b = (price a = price b)"
| "same_key lc PriceDesc a b = (price a = price b)"
| "same_key lc TitleAsc a b = (lc (title a) (title b) = 0)"
| "same_key lc TitleDesc a b = (lc (title a) (title b) = 0)"

text \<open>The comparison function \<^verbatim>\<open>sortProducts\<close> hands to \<^verbatim>\<open>sort\<close> for each key.\<close>

fun comparator_of :: "(string \<Rightarrow> string \<Rightarrow> number) \<Rightarrow> SortKey \<Rightarrow> Product \<Rightarrow> Product \<Rightarrow> number" where
  "comparator_of lc PriceAsc = (\<lambda>a b. price a - price b)"
| "comparator_of lc PriceDesc = (\<lambda>a b. price b - price a)"
| "comparator_of lc TitleAsc = (\<lambda>a b. lc (title a) (title b))"
| "comparator_of lc TitleDesc = (\<lambda>a b. lc (title b) (title a))"

text \<open>Four products; the first and the third have the same price and titles of one length.\<close>

definition sample_items :: "Product list" where
  "sample_items =
     [sample_product 1 ''pear'' 3, sample_product 2 ''fig'' 1, sample_product 3 ''plum'' 3,
      sample_product 4 ''kiwi'' 2]"

text \<open>
  A page for concrete evaluations: the given query, selected category, selected sort and
  loaded category list.
\<close>

definition sample_page :: "LocationQuery \<Rightarrow> string option \<Rightarrow> string \<Rightarrow> string list \<Rightarrow> page" where
  "sample_page q c k cs =
     \<lparr>route_query = q, selectedCategory = c, selectedSort = k, syncing = False,
      categoriesData = Some cs\<rparr>"

text \<open>A successful response with a product list of one product.\<close>

definition sample_products :: json_value where
  "sample_products =
     JArr [JObj [(''id'', JNum 1), (''title'', JStr ''pear''), (''price'', JNum 3)]]"

definition sample_response :: Response where
  "sample_response =
     \<lparr>status = 200,
      json = Some (JObj [(''products'', sample_products), (''total'', JNum 1),
                         (''skip'', JNum 0), (''limit'', JNum 100)])\<rparr>"

section \<open>Properties of the sort\<close>

lemma mset_insert_cmp: "mset (insert_cmp c x xs) = add_mset x (mset xs)"
  by (induction xs) auto

lemma mset_array_sort: "mset (array_sort c xs) = mset xs"
  by (induction xs) (auto simp: mset_insert_cmp)

lemma set_insert_cmp: "set (insert_cmp c x xs) = insert x (set xs)"
  by (induction xs) auto

lemma length_array_sort: "length (array_sort c xs) = length xs"
  using mset_array_sort [of c xs] by (metis size_mset)

lemma cc_unfold:
  assumes "consistent_comparator c"
  shows "\<forall>a. c a a = 0"
    and "\<forall>a b. c a b = 0 \<longrightarrow> c b a = 0"
    and "\<forall>a b d. c a b = 0 \<and> c b d = 0 \<longrightarrow> c a d = 0"
    and "\<forall>a b d. c a b < 0 \<and> c b d < 0 \<longrightarrow> c a d < 0"
    and "\<forall>a b d. c a b > 0 \<and> c b d > 0 \<longrightarrow> c a d > 0"
proof -
  have *: "(\<forall>a. c a a = 0) \<and>
      (\<forall>a b. c a b = 0 \<longrightarrow> c b a = 0) \<and>
      (\<forall>a b d. c a b = 0 \<and> c b d = 0 \<longrightarrow> c a d = 0) \<and>
      (\<forall>a b d. c a b < 0 \<and> c b d < 0 \<longrightarrow> c a d < 0) \<and>
      (\<forall>a b d. c a b > 0 \<and> c b d > 0 \<longrightarrow> c a d > 0)"
    using assms unfolding consistent_comparator_def .
  show "\<forall>a. c a a = 0" using * by (elim conjE)
  show "\<forall>a b. c a b = 0 \<longrightarrow> c b a = 0" using * by (elim conjE)
  show "\<forall>a b d. c a b = 0 \<and> c b d = 0 \<longrightarrow> c a d = 0" using * by (elim conjE)
  show "\<forall>a b d. c a b < 0 \<and> c b d < 0 \<longrightarrow> c a d < 0" using * by (elim conjE)
  show "\<forall>a b d. c a b > 0 \<and> c b d > 0 \<longrightarrow> c a d > 0" using * by (elim conjE)
qed

lemma cc_refl: "consistent_comparator c \<Longrightarrow> c a a = 0"
  by (drule cc_unfold(1)) (erule spec)

lemma cc_sym: "consistent_comparator c \<Longrightarrow> c a b = 0 \<Longrightarrow> c b a = 0"
  by (drule cc_unfold(2)) blast

lemma cc_eq_trans: "consistent_comparator c \<Longrightarrow> c a b = 0 \<Longrightarrow> c b d = 0 \<Longrightarrow> c a d = 0"
  by (drule cc_unfold(3)) blast

lemma cc_less_trans: "consistent_comparator c \<Longrightarrow> c a b < 0 \<Longrightarrow> c b d < 0 \<Longrightarrow> c a d < 0"
  by (drule cc_unfold(4)) blast

lemma cc_greater_trans: "consistent_comparator c \<Longrightarrow> c a b > 0 \<Longrightarrow> c b d > 0 \<Longrightarrow> c a d > 0"
  by (drule cc_unfold(5)) blast

lemma cc_flip:
  assumes "consistent_comparator c" and "c a b < 0"
  shows "c b a > 0"
proof (rule ccontr)
  assume "\<not> c b a > 0"
  then consider "c b a < 0" | "c b a = 0" by linarith
  then show False
  proof cases
    case 1
    with assms(2) have "c a a < 0" by (rule cc_less_trans [OF assms(1)])
    with assms(1) show False by (simp add: cc_refl)
  next
    case 2
    with assms(1) have "c a b = 0" by (rule cc_sym)
    with assms(2) show False by simp
  qed
qed

lemma cc_flip':
  assumes "consistent_comparator c" and "c a b > 0"
  shows "c b a < 0"
proof (rule ccontr)
  assume "\<not> c b a < 0"
  then consider "c b a > 0" | "c b a = 0" by linarith
  then show False
  proof cases
    case 1
    with assms(2) have "c a a > 0" by (rule cc_greater_trans [OF assms(1)])
    with assms(1) show False by (simp add: cc_refl)
  next
    case 2
    with assms(1) have "c a b = 0" by (rule cc_sym)
    with assms(2) show False by simp
  qed
qed

lemma cc_total: "consistent_comparator c \<Longrightarrow> c a b \<le> 0 \<or> c b a \<le> 0"
  using cc_flip' [of c a b] by force

lemma cc_eq_less:
  assumes cc: "consistent_comparator c" and "c a b = 0" and "c b d < 0"
  shows "c a d < 0"
proof (rule ccontr)
  assume "\<not> c a d < 0"
  then consider "c a d > 0" | "c a d = 0" by linarith
  then show False
  proof cases
    case 1
    then have "c d a < 0" using cc by (rule cc_flip'[rotated])
    with assms(3) have "c b a < 0" by (rule cc_less_trans [OF cc])
    moreover have "c b a = 0" using cc assms(2) by (rule cc_sym)
    ultimately show False by simp
  next
    case 2
    with assms(2) have "c b d = 0"
      using cc_eq_trans [OF cc, of b a d] cc_sym [OF cc, of a b] by simp
    with assms(3) show False by simp
  qed
qed

lemma cc_less_eq:
  assumes cc: "consistent_comparator c" and "c a b < 0" and "c b d = 0"
  shows "c a d < 0"
proof (rule ccontr)
  assume "\<not> c a d < 0"
  then consider "c a d > 0" | "c a d = 0" by linarith
  then show False
  proof cases
    case 1
    then have "c d a < 0" using cc by (rule cc_flip'[rotated])
    then have "c d b < 0" using assms(2) by (rule cc_less_trans [OF cc])
    moreover have "c d b = 0" using cc assms(3) by (rule cc_sym)
    ultimately show False by simp
  next
    case 2
    have "c d b = 0" using cc assms(3) by (rule cc_sym)
    with 2 have "c a b = 0" using cc_eq_trans [OF cc, of a d b] by simp
    with assms(2) show False by simp
  qed
qed

lemma cc_le_trans:
  assumes cc: "consistent_comparator c" and ab: "c a b \<le> 0" and bd: "c b d \<le> 0"
  shows "c a d \<le> 0"
proof -
  consider "c a b < 0" "c b d < 0" | "c a b = 0" "c b d < 0" | "c a b < 0" "c b d = 0"
    | "c a b = 0" "c b d = 0"
    using ab bd by linarith
  then show ?thesis
  proof cases
    case 1 then show ?thesis using cc_less_trans [OF cc, of a b d] by simp
  next
    case 2 then show ?thesis using cc_eq_less [OF cc, of a b d] by simp
  next
    case 3 then show ?thesis using cc_less_eq [OF cc, of a b d] by simp
  next
    case 4 then show ?thesis using cc_eq_trans [OF cc, of a b d] by simp
  qed
qed

lemma sorted_insert_cmp:
  assumes cc: "consistent_comparator c"
  shows "sorted_wrt (\<lambda>a b. c a b \<le> 0) xs \<Longrightarrow> sorted_wrt (\<lambda>a b. c a b \<le> 0) (insert_cmp c x xs)"
proof (induction xs)
  case Nil
  then show ?case by simp
next
  case (Cons y ys)
  show ?case
  proof (cases "c x y \<le> 0")
    case True
    have "c x z \<le> 0" if "z \<in> set ys" for z
    proof -
      from Cons.prems that have "c y z \<le> 0" by simp
      with True show ?thesis by (rule cc_le_trans [OF cc])
    qed
    with True Cons.prems show ?thesis by simp
  next
    case False
    then have "c y x \<le> 0" using cc_total [OF cc, of x y] by simp
    with False Cons show ?thesis by (auto simp: set_insert_cmp)
  qed
qed

lemma sorted_array_sort:
  assumes cc: "consistent_comparator c"
  shows "sorted_wrt (\<lambda>a b. c a b \<le> 0) (array_sort c xs)"
proof (induction xs)
  case Nil
  show ?case by simp
next
  case (Cons x xs)
  from sorted_insert_cmp [OF cc Cons.IH, of x] show ?case by simp
qed

lemma filter_insert_cmp:
  assumes cc: "consistent_comparator c"
  shows "filter (\<lambda>y. c x y = 0) (insert_cmp c a xs) =
         (if c x a = 0 then a # filter (\<lambda>y. c x y = 0) xs else filter (\<lambda>y. c x y = 0) xs)"
proof (induction xs)
  case Nil
  then show ?case by simp
next
  case (Cons y ys)
  have "c a y = 0" if "c x a = 0" and "c x y = 0"
  proof -
    from that(1) have "c a x = 0" by (rule cc_sym [OF cc])
    then show ?thesis using that(2) by (rule cc_eq_trans [OF cc])
  qed
  then have "\<not> (c x a = 0 \<and> c x y = 0 \<and> 0 < c a y)" by auto
  with Cons.IH show ?case by auto
qed

lemma stable_array_sort:
  assumes cc: "consistent_comparator c"
  shows "filter (\<lambda>y. c x y = 0) (array_sort c xs) = filter (\<lambda>y. c x y = 0) xs"
proof (induction xs)
  case Nil
  show ?case by simp
next
  case (Cons a xs)
  have "filter (\<lambda>y. c x y = 0) (array_sort c (a # xs)) =
        (if c x a = 0 then a # filter (\<lambda>y. c x y = 0) (array_sort c xs)
         else filter (\<lambda>y. c x y = 0) (array_sort c xs))"
    using filter_insert_cmp [OF cc, of x a "array_sort c xs"] by simp
  with Cons.IH show ?case by simp
qed

text \<open>
  With a consistent comparison function there is one list that is ordered and keeps each
  class of equal elements in the order of the input, so any sort that meets the
  requirement of ECMAScript returns what \<open>array_sort\<close> computes.
\<close>

lemma stable_sorted_unique:
  assumes cc: "consistent_comparator c"
  shows "sorted_wrt (\<lambda>a b. c a b \<le> 0) ys \<Longrightarrow> sorted_wrt (\<lambda>a b. c a b \<le> 0) zs \<Longrightarrow>
         (\<And>x. filter (\<lambda>y. c x y = 0) ys = filter (\<lambda>y. c x y = 0) zs) \<Longrightarrow> ys = zs"
proof (induction ys arbitrary: zs)
  case Nil
  show ?case
  proof (cases zs)
    case (Cons z zs')
    from Nil(3) [of z] have "filter (\<lambda>y. c z y = 0) zs = []" by simp
    with Cons cc_refl [OF cc, of z] show ?thesis by simp
  qed simp
next
  case (Cons y ys')
  have fy: "filter (\<lambda>w. c y w = 0) zs = y # filter (\<lambda>w. c y w = 0) ys'"
    using Cons.prems(3) [of y] cc_refl [OF cc, of y] by simp
  then obtain z zs' where zs: "zs = z # zs'" by (cases zs) auto
  have y_in: "y \<in> set zs"
  proof -
    have "y \<in> set (filter (\<lambda>w. c y w = 0) zs)" unfolding fy by simp
    then show ?thesis by simp
  qed
  have z_in: "z \<in> set (y # ys')"
  proof -
    have "z \<in> set (filter (\<lambda>w. c z w = 0) zs)" using zs cc_refl [OF cc, of z] by simp
    then have "z \<in> set (filter (\<lambda>w. c z w = 0) (y # ys'))"
      by (simp only: Cons.prems(3) [of z])
    then show ?thesis by (simp only: set_filter) blast
  qed
  have yz: "y = z"
  proof (cases "c y z = 0")
    case True
    then have "filter (\<lambda>w. c y w = 0) zs = z # filter (\<lambda>w. c y w = 0) zs'"
      using zs by simp
    with fy show ?thesis by simp
  next
    case False
    then have ne: "y \<noteq> z" using cc_refl [OF cc, of y] by auto
    with y_in zs have "y \<in> set zs'" by simp
    with Cons.prems(2) zs have "c z y \<le> 0" by simp
    moreover have "c z y \<noteq> 0" using False cc_sym [OF cc, of z y] by auto
    ultimately have 1: "c z y < 0" by simp
    from ne z_in have "z \<in> set ys'" by auto
    with Cons.prems(1) have "c y z \<le> 0" by simp
    with False have "c y z < 0" by simp
    from cc_flip [OF cc this] 1 show ?thesis by simp
  qed
  have tl: "filter (\<lambda>w. c x w = 0) ys' = filter (\<lambda>w. c x w = 0) zs'" for x
    using Cons.prems(3) [of x] zs yz by (simp split: if_splits)
  have "ys' = zs'"
  proof (rule Cons.IH)
    show "sorted_wrt (\<lambda>a b. c a b \<le> 0) ys'" using Cons.prems(1) by simp
    show "sorted_wrt (\<lambda>a b. c a b \<le> 0) zs'" using Cons.prems(2) zs by simp
    show "filter (\<lambda>y. c x y = 0) ys' = filter (\<lambda>y. c x y = 0) zs'" for x by (rule tl)
  qed
  with zs yz show ?case by simp
qed

lemma array_sort_unique:
  assumes cc: "consistent_comparator c"
    and "sorted_wrt (\<lambda>a b. c a b \<le> 0) ys"
    and "\<And>x. filter (\<lambda>y. c x y = 0) ys = filter (\<lambda>y. c x y = 0) xs"
  shows "ys = array_sort c xs"
proof (rule stable_sorted_unique [OF cc assms(2)])
  show "sorted_wrt (\<lambda>a b. c a b \<le> 0) (array_sort c xs)" by (rule sorted_array_sort [OF cc])
  show "filter (\<lambda>y. c x y = 0) ys = filter (\<lambda>y. c x y = 0) (array_sort c xs)" for x
    using assms(3) [of x] stable_array_sort [OF cc, of x xs] by simp
qed

lemma cc_price_asc: "consistent_comparator (\<lambda>a b. price a - price b)"
  by (auto simp: consistent_comparator_def)

lemma cc_price_desc: "consistent_comparator (\<lambda>a b. price b - price a)"
  by (auto simp: consistent_comparator_def)

lemma cc_on:
  assumes cc: "consistent_comparator c"
  shows "consistent_comparator (\<lambda>a b. c (f a) (f b))"
  unfolding consistent_comparator_def
proof (intro conjI allI impI)
  fix a b d
  show "c (f a) (f a) = 0" by (rule cc_refl [OF cc])
  show "c (f a) (f b) = 0 \<Longrightarrow> c (f b) (f a) = 0" by (rule cc_sym [OF cc])
  show "c (f a) (f b) = 0 \<and> c (f b) (f d) = 0 \<Longrightarrow> c (f a) (f d) = 0"
    using cc_eq_trans [OF cc, of "f a" "f b" "f d"] by simp
  show "c (f a) (f b) < 0 \<and> c (f b) (f d) < 0 \<Longrightarrow> c (f a) (f d) < 0"
    using cc_less_trans [OF cc, of "f a" "f b" "f d"] by simp
  show "0 < c (f a) (f b) \<and> 0 < c (f b) (f d) \<Longrightarrow> 0 < c (f a) (f d)"
    using cc_greater_trans [OF cc, of "f a" "f b" "f d"] by simp
qed

lemma cc_converse:
  assumes cc: "consistent_comparator c"
  shows "consistent_comparator (\<lambda>a b. c b a)"
  unfolding consistent_comparator_def
proof (intro conjI allI impI)
  fix a b d
  show "c a a = 0" by (rule cc_refl [OF cc])
  show "c b a = 0 \<Longrightarrow> c a b = 0" by (rule cc_sym [OF cc])
  show "c b a = 0 \<and> c d b = 0 \<Longrightarrow> c d a = 0"
    using cc_eq_trans [OF cc, of d b a] by simp
  show "c b a < 0 \<and> c d b < 0 \<Longrightarrow> c d a < 0"
    using cc_less_trans [OF cc, of d b a] by simp
  show "0 < c b a \<and> 0 < c d b \<Longrightarrow> 0 < c d a"
    using cc_greater_trans [OF cc, of d b a] by simp
qed

lemma cc_compare_length: "consistent_comparator compare_length"
  by (auto simp: consistent_comparator_def compare_length_def)

lemma sortProducts_comparator:
  "sortProducts lc items srt = array_sort (comparator_of lc srt) items"
  by (cases srt) (simp_all add: sortProducts_def)

lemma cc_comparator_of:
  assumes "consistent_comparator lc"
  shows "consistent_comparator (comparator_of lc srt)"
proof (cases srt)
  case PriceAsc
  then show ?thesis by (simp add: cc_price_asc)
next
  case PriceDesc
  then show ?thesis by (simp add: cc_price_desc)
next
  case TitleAsc
  then show ?thesis using cc_on [OF assms, of title] by simp
next
  case TitleDesc
  then show ?thesis using cc_converse [OF cc_on [OF assms, of title]] by simp
qed

lemma comparator_of_ordered:
  assumes cc: "consistent_comparator lc" and le: "comparator_of lc srt a b \<le> 0"
  shows "ordered_by lc srt a b"
proof (cases srt)
  case TitleDesc
  with le have "lc (title b) (title a) \<le> 0" by simp
  then consider "lc (title b) (title a) < 0" | "lc (title b) (title a) = 0" by linarith
  then have "lc (title a) (title b) \<ge> 0"
  proof cases
    case 1
    from cc_flip [OF cc 1] show ?thesis by simp
  next
    case 2
    from cc_sym [OF cc 2] show ?thesis by simp
  qed
  with TitleDesc show ?thesis by simp
qed (use le in simp_all)

lemma comparator_of_same_key:
  assumes cc: "consistent_comparator lc"
  shows "(comparator_of lc srt a b = 0) = same_key lc srt a b"
proof (cases srt)
  case TitleDesc
  have "(lc (title b) (title a) = 0) = (lc (title a) (title b) = 0)"
    using cc_sym [OF cc, of "title a" "title b"] cc_sym [OF cc, of "title b" "title a"] by blast
  with TitleDesc show ?thesis by simp
qed auto

lemma sample_sorted:
  "map pid (sortProducts compare_length sample_items PriceAsc) = [2, 4, 1, 3]"
  "map pid (sortProducts compare_length sample_items PriceDesc) = [1, 3, 4, 2]"
  "map pid (sortProducts compare_length sample_items TitleAsc) = [2, 1, 3, 4]"
  "map pid (sortProducts compare_length sample_items TitleDesc) = [1, 3, 4, 2]"
  by (simp_all add: sample_items_def sortProducts_def sample_product_def compare_length_def)

section \<open>C2: the sort is a stable, ordered permutation\<close>

text \<open>
  C2. For every list of products and each of the four sort keys, \<open>sortProducts\<close> returns a
  permutation of the input that is ordered by the key (nondecreasing price, nonincreasing
  price, ascending title comparison, descending title comparison), and the sort is stable:
  the elements that compare equal to any given product stand in the result in the order
  they had in the input. The title comparison is the platform's \<open>localeCompare\<close>, which
  ECMAScript requires to be a consistent comparison function.
\<close>

theorem sortProducts_sorted_stable_permutation:
  assumes "consistent_comparator localeCompare"
  shows "mset (sortProducts localeCompare items srt) = mset items \<and>
         sorted_wrt (ordered_by localeCompare srt) (sortProducts localeCompare items srt) \<and>
         (\<forall>x. filter (same_key localeCompare srt x) (sortProducts localeCompare items srt) =
              filter (same_key localeCompare srt x) items)"
proof -
  let ?c = "comparator_of localeCompare srt"
  have cc: "consistent_comparator ?c" by (rule cc_comparator_of [OF assms])
  have eq: "sortProducts localeCompare items srt = array_sort ?c items"
    by (rule sortProducts_comparator)
  have "sorted_wrt (\<lambda>a b. ?c a b \<le> 0) (array_sort ?c items)"
    by (rule sorted_array_sort [OF cc])
  then have s: "sorted_wrt (ordered_by localeCompare srt) (array_sort ?c items)"
    by (rule sorted_wrt_mono_rel [rotated]) (rule comparator_of_ordered [OF assms])
  have f: "filter (same_key localeCompare srt x) (array_sort ?c items) =
           filter (same_key localeCompare srt x) items" for x
  proof -
    have "(\<lambda>y. ?c x y = 0) = same_key localeCompare srt x"
      by (rule ext) (rule comparator_of_same_key [OF assms])
    with stable_array_sort [OF cc, of x items] show ?thesis by simp
  qed
  from s f show ?thesis unfolding eq by (simp add: mset_array_sort)
qed

text \<open>
  The theorem at the by-length comparison and the four sample products, sorted by title
  descending: the three titles of length four keep their order.
\<close>

theorem sortProducts_sorted_stable_permutation_witness:
  "consistent_comparator compare_length \<and>
   map pid (sortProducts compare_length sample_items TitleDesc) = [1, 3, 4, 2] \<and>
   mset (sortProducts compare_length sample_items TitleDesc) = mset sample_items \<and>
   sorted_wrt (ordered_by compare_length TitleDesc)
     (sortProducts compare_length sample_items TitleDesc) \<and>
   (\<forall>x. filter (same_key compare_length TitleDesc x)
          (sortProducts compare_length sample_items TitleDesc) =
        filter (same_key compare_length TitleDesc x) sample_items)"
proof -
  have cc: "consistent_comparator compare_length" by (rule cc_compare_length)
  from sortProducts_sorted_stable_permutation [OF cc, of sample_items TitleDesc]
  show ?thesis using cc sample_sorted(4) by (intro conjI) (elim conjE, assumption)+
qed

section \<open>C1: the visible products\<close>

lemma array_slice_0: "0 \<le> n \<Longrightarrow> array_slice xs 0 n = take (nat n) xs"
  by (auto simp: array_slice_def Let_def min_def)

text \<open>
  C1. For every product list the products query returned and every selected sort key, the
  visible list is the first ten elements of the sorted list, all of it when the list has
  fewer than ten elements; and whatever the query holds (also nothing yet), the visible
  list never has more than ten items.
\<close>

theorem visibleProducts_top_ten:
  "visibleProducts localeCompare (Some items) srt = take 10 (sortProducts localeCompare items srt) \<and>
   (length items < 10 \<longrightarrow>
      visibleProducts localeCompare (Some items) srt = sortProducts localeCompare items srt) \<and>
   length (visibleProducts localeCompare productsData srt) \<le> 10"
  by (simp add: visibleProducts_def Let_def array_slice_0 sortProducts_comparator length_array_sort)

text \<open>The theorem at the four sample products, and the length for twelve products.\<close>

theorem visibleProducts_top_ten_witness:
  "length sample_items < 10 \<and>
   visibleProducts compare_length (Some sample_items) PriceAsc =
     sortProducts compare_length sample_items PriceAsc \<and>
   map pid (visibleProducts compare_length (Some sample_items) PriceAsc) = [2, 4, 1, 3] \<and>
   length (visibleProducts compare_length (Some (sample_items @ sample_items @ sample_items))
             PriceAsc) = 10"
proof -
  have l: "length sample_items < 10" by (simp add: sample_items_def)
  have v: "visibleProducts compare_length (Some sample_items) PriceAsc =
           sortProducts compare_length sample_items PriceAsc"
    using visibleProducts_top_ten [of compare_length sample_items PriceAsc, THEN conjunct2,
            THEN conjunct1] l
    by (rule mp)
  have e: "visibleProducts compare_length (Some (sample_items @ sample_items @ sample_items))
             PriceAsc =
           take 10 (sortProducts compare_length (sample_items @ sample_items @ sample_items)
             PriceAsc)"
    by (rule visibleProducts_top_ten [THEN conjunct1])
  have "length (sample_items @ sample_items @ sample_items) = 12"
    by (simp add: sample_items_def)
  then have "length (sortProducts compare_length (sample_items @ sample_items @ sample_items)
          PriceAsc) = 12"
    by (simp only: sortProducts_comparator length_array_sort)
  then have t: "length (visibleProducts compare_length
             (Some (sample_items @ sample_items @ sample_items)) PriceAsc) = 10"
    by (simp only: e length_take)
  have m: "map pid (visibleProducts compare_length (Some sample_items) PriceAsc) = [2, 4, 1, 3]"
    by (simp only: v sample_sorted)
  from l v m t show ?thesis by (intro conjI)
qed

section \<open>C9: \<open>sortProducts\<close> leaves its argument alone\<close>

text \<open>
  C9. For every store, every array \<open>items\<close> in it and every sort key, \<open>sortProducts\<close> does
  not change its argument: after the call the array at \<open>items\<close> holds what it held, as does
  every other array of the store; the result is a new array, at an address that was not
  in use and so is not the argument's, and it holds the sorted products.
\<close>

theorem sortProducts_heap_frame:
  assumes "items < length h"
  shows "fst (sortProducts_heap localeCompare h items srt) ! items = h ! items \<and>
         snd (sortProducts_heap localeCompare h items srt) \<noteq> items \<and>
         snd (sortProducts_heap localeCompare h items srt) = length h \<and>
         length (fst (sortProducts_heap localeCompare h items srt)) = Suc (length h) \<and>
         (\<forall>a < length h. fst (sortProducts_heap localeCompare h items srt) ! a = h ! a) \<and>
         fst (sortProducts_heap localeCompare h items srt) ! snd (sortProducts_heap localeCompare h items srt) =
           sortProducts localeCompare (h ! items) srt"
  using assms
  by (cases srt) (simp_all add: sortProducts_heap_def alloc_def sort_in_place_def sortProducts_def nth_append)

text \<open>The theorem at a store that holds the sample products at address 0.\<close>

theorem sortProducts_heap_frame_witness:
  "0 < length [sample_items] \<and>
   fst (sortProducts_heap compare_length [sample_items] 0 PriceAsc) ! 0 = sample_items \<and>
   snd (sortProducts_heap compare_length [sample_items] 0 PriceAsc) = 1 \<and>
   map pid (fst (sortProducts_heap compare_length [sample_items] 0 PriceAsc) ! 1) = [2, 4, 1, 3]"
proof -
  have l: "0 < length [sample_items]" by simp
  let ?r = "sortProducts_heap compare_length [sample_items] 0 PriceAsc"
  note frame = sortProducts_heap_frame [OF l, of compare_length PriceAsc]
  from frame have a: "fst ?r ! 0 = sample_items" by simp
  from frame have b: "snd ?r = 1" by simp
  from frame
  have "fst ?r ! snd ?r = sortProducts compare_length ([sample_items] ! 0) PriceAsc"
    by (elim conjE)
  then have c: "fst ?r ! snd ?r = sortProducts compare_length sample_items PriceAsc"
    by (simp only: nth_Cons_0)
  from c have "fst ?r ! 1 = sortProducts compare_length sample_items PriceAsc"
    unfolding b .
  then have "map pid (fst ?r ! 1) = [2, 4, 1, 3]"
    by (simp only: sample_sorted)
  with l a b show ?thesis by (intro conjI)
qed

section \<open>The API client\<close>

lemma decimal_100: "decimal 100 = ''100''"
  by code_simp

lemma snd_fetchJson: "snd (fetchJson fetch url requests) = requests @ [url]"
  by (simp add: fetchJson_def Let_def split: sum.splits option.splits)

lemma isl_fetchJson:
  "fetch url = Inr res \<Longrightarrow>
     isl (fst (fetchJson fetch url requests)) = (\<not> ok res \<or> json res = None)"
  by (auto simp: fetchJson_def Let_def split: option.splits)

lemma fst_fetchJson_ok:
  "fetch url = Inr res \<Longrightarrow> ok res \<Longrightarrow>
     fst (fetchJson fetch url requests) =
       (case json res of Some v \<Rightarrow> Inr v | None \<Rightarrow> Inl BodyError)"
  by (auto simp: fetchJson_def Let_def split: option.splits)

lemma isl_get_products: "isl (get_products data) = (data = JNull)"
  by (cases data) simp_all

lemma uriUnreserved_ascii: "uriUnreserved u \<Longrightarrow> u < 128"
  by (auto simp: uriUnreserved_def)

lemma uriUnreserved_not_surrogate:
  "uriUnreserved u \<Longrightarrow> \<not> isLeadingSurrogate u \<and> \<not> isTrailingSurrogate u"
  by (drule uriUnreserved_ascii) (simp add: isLeadingSurrogate_def isTrailingSurrogate_def)

lemma leading_not_trailing: "isLeadingSurrogate u \<Longrightarrow> \<not> isTrailingSurrogate u"
  by (simp add: isLeadingSurrogate_def isTrailingSurrogate_def)

lemma encodeURIComponent_error: "encodeURIComponent c = Inl e \<Longrightarrow> e = URIError"
  by (induction c arbitrary: e rule: encodeURIComponent.induct)
     (auto split: if_splits sum.splits)

lemma encodeURIComponent_fails: "isl (encodeURIComponent c) = (\<not> isWellFormed c)"
proof (induction c rule: encodeURIComponent.induct)
  case 1
  show ?case by simp
next
  case (2 u)
  show ?case using uriUnreserved_not_surrogate [of u] by auto
next
  case (3 u v vs)
  show ?case
  proof (cases "uriUnreserved u")
    case True
    with 3 uriUnreserved_not_surrogate [of u] show ?thesis
      by (auto split: sum.splits)
  next
    case False
    with 3 leading_not_trailing [of u] show ?thesis
      by (auto split: sum.splits)
  qed
qed

lemma encodeURIComponent_unreserved:
  "list_all uriUnreserved c \<Longrightarrow> encodeURIComponent c = Inr (map char_of c)"
  by (induction c rule: encodeURIComponent.induct) simp_all

lemma char_of_eq_iff: "(char_of (n::nat) = c) = (n mod 256 = of_char c)"
proof
  assume "char_of n = c"
  then have "of_char (char_of n) = (of_char c :: nat)" by simp
  then show "n mod 256 = of_char c" by simp
next
  assume "n mod 256 = of_char c"
  then have "char_of (n mod 256) = char_of (of_char c :: nat)" by simp
  then show "char_of n = c" by simp
qed

lemma encode_space: "encodeURIComponent (code_units ''a b'') = Inr ''a%20b''"
  by (simp add: code_units_def uriUnreserved_def isLeadingSurrogate_def isTrailingSurrogate_def
        utf8_octets_def percentEncode_def hexDigit_def char_of_eq_iff)

lemma unreserved_phones: "list_all uriUnreserved (code_units ''phones'')"
  by (simp add: code_units_def uriUnreserved_def)

lemma chars_phones: "map char_of (code_units ''phones'') = ''phones''"
  by (simp add: code_units_def char_of_eq_iff)

text \<open>What \<open>getProducts\<close> does with the URL once it has it.\<close>

lemma products_request:
  "(case fetchJson fetch url requests of
      (Inl e, requests') \<Rightarrow> (Inl e, requests')
    | (Inr data, requests') \<Rightarrow> (get_products data, requests')) =
   ((case fst (fetchJson fetch url requests) of Inl e \<Rightarrow> Inl e | Inr data \<Rightarrow> get_products data),
    requests @ [url])"
  using snd_fetchJson [of fetch url requests]
  by (cases "fetchJson fetch url requests") (auto split: sum.splits)

lemma getProducts_unfold:
  "getProducts fetch cat requests =
     (if cat = None \<or> cat = Some [] then
        ((case fst (fetchJson fetch (BASE @ ''/products?limit=100'') requests) of
            Inl e \<Rightarrow> Inl e | Inr data \<Rightarrow> get_products data),
         requests @ [BASE @ ''/products?limit=100''])
      else
        (case encodeURIComponent (the cat) of
           Inl e \<Rightarrow> (Inl e, requests)
         | Inr encoded \<Rightarrow>
             ((case fst (fetchJson fetch
                           (BASE @ ''/products/category/'' @ encoded @ ''?limit=100'')
                           requests) of
                 Inl e \<Rightarrow> Inl e | Inr data \<Rightarrow> get_products data),
              requests @ [BASE @ ''/products/category/'' @ encoded @ ''?limit=100''])))"
  by (simp add: getProducts_def decimal_100 Let_def products_request split: sum.splits)

lemma isl_products_result:
  assumes "fetch url = Inr res"
  shows "isl (case fst (fetchJson fetch url requests) of
                Inl e \<Rightarrow> Inl e | Inr data \<Rightarrow> get_products data) =
         (\<not> ok res \<or> json res = None \<or> json res = Some JNull)"
proof (cases "ok res")
  case True
  from fst_fetchJson_ok
         [where fetch = fetch and url = url and res = res and requests = requests]
       assms True
  show ?thesis
    by (auto simp: isl_get_products split: option.splits)
next
  case False
  with isl_fetchJson
         [where fetch = fetch and url = url and res = res and requests = requests]
       assms
  show ?thesis
    by (auto split: sum.splits)
qed

section \<open>C7: when \<open>fetchJson\<close> fails\<close>

text \<open>
  C7 as stated fails: a response with a 2xx status whose body does not parse makes
  \<open>fetchJson\<close> fail, since \<^verbatim>\<open>res.json()\<close> rejects; and a response with a 2xx status
  whose body is \<^verbatim>\<open>null\<close> makes \<open>getProducts\<close> fail, since it reads a property of
  \<^verbatim>\<open>null\<close>.
\<close>

theorem fetchJson_error_on_success_status:
  "ok \<lparr>status = 200, json = None\<rparr> \<and>
   fst (fetchJson (\<lambda>url. Inr \<lparr>status = 200, json = None\<rparr>)
          ''https://dummyjson.com/products/categories'' []) = Inl BodyError \<and>
   ok \<lparr>status = 200, json = Some JNull\<rparr> \<and>
   fst (getProducts (\<lambda>url. Inr \<lparr>status = 200, json = Some JNull\<rparr>) None []) = Inl TypeError"
  by (simp add: fetchJson_def ok_def getProducts_unfold)

text \<open>
  C7, amended. For every HTTP response, \<open>fetchJson\<close> raises the "request failed" error
  with the response's status if and only if the status is not a 2xx success (200 to 299);
  on a 2xx response it returns the parsed body when the body parses and raises the body's
  parse error otherwise, so that it fails if and only if the status is not 2xx or the
  body does not parse, and so does \<open>getCategories\<close> on the response to its URL.
  \<open>getProducts\<close>, on the response to the URL it requests, fails if and only if the
  status is not 2xx, the body does not parse, or the body is \<^verbatim>\<open>null\<close>. The URL is
  requested once.
\<close>

theorem fetchJson_result:
  assumes "fetch url = Inr res"
  shows "(fst (fetchJson fetch url requests) = Inl (RequestFailed (status res))) = (\<not> ok res) \<and>
         ok res = (200 \<le> status res \<and> status res \<le> 299) \<and>
         (ok res \<longrightarrow> fst (fetchJson fetch url requests) =
            (case json res of Some v \<Rightarrow> Inr v | None \<Rightarrow> Inl BodyError)) \<and>
         isl (fst (fetchJson fetch url requests)) = (\<not> ok res \<or> json res = None) \<and>
         snd (fetchJson fetch url requests) = requests @ [url] \<and>
         (\<forall>r. fetchC (BASE @ ''/products/categories'') = Inr r \<longrightarrow>
            isl (fst (getCategories fetchC requests)) = (\<not> ok r \<or> json r = None)) \<and>
         (\<forall>r. (cat = None \<or> cat = Some []) \<and> fetchP (BASE @ ''/products?limit=100'') = Inr r \<longrightarrow>
            isl (fst (getProducts fetchP cat requests)) =
              (\<not> ok r \<or> json r = None \<or> json r = Some JNull)) \<and>
         (\<forall>r c encoded.
            cat = Some c \<and> c \<noteq> [] \<and> encodeURIComponent c = Inr encoded \<and>
            fetchP (BASE @ ''/products/category/'' @ encoded @ ''?limit=100'') = Inr r \<longrightarrow>
            isl (fst (getProducts fetchP cat requests)) =
              (\<not> ok r \<or> json r = None \<or> json r = Some JNull))"
proof (intro conjI allI impI)
  show "(fst (fetchJson fetch url requests) = Inl (RequestFailed (status res))) = (\<not> ok res)"
    using assms by (auto simp: fetchJson_def Let_def split: option.splits)
  show "ok res = (200 \<le> status res \<and> status res \<le> 299)"
    by (simp add: ok_def)
  show "fst (fetchJson fetch url requests) =
          (case json res of Some v \<Rightarrow> Inr v | None \<Rightarrow> Inl BodyError)" if "ok res"
    using assms that by (rule fst_fetchJson_ok)
  show "isl (fst (fetchJson fetch url requests)) = (\<not> ok res \<or> json res = None)"
    using assms by (rule isl_fetchJson)
  show "snd (fetchJson fetch url requests) = requests @ [url]"
    by (rule snd_fetchJson)
  show "isl (fst (getCategories fetchC requests)) = (\<not> ok r \<or> json r = None)"
    if "fetchC (BASE @ ''/products/categories'') = Inr r" for r
    using that unfolding getCategories_def by (rule isl_fetchJson)
  show "isl (fst (getProducts fetchP cat requests)) =
          (\<not> ok r \<or> json r = None \<or> json r = Some JNull)"
    if "(cat = None \<or> cat = Some []) \<and> fetchP (BASE @ ''/products?limit=100'') = Inr r" for r
  proof -
    from that have f: "fetchP (BASE @ ''/products?limit=100'') = Inr r" by simp
    from that isl_products_result
           [where fetch = fetchP and url = "BASE @ ''/products?limit=100''" and res = r
              and requests = requests, OF f]
    show ?thesis by (simp add: getProducts_unfold)
  qed
  show "isl (fst (getProducts fetchP cat requests)) =
          (\<not> ok r \<or> json r = None \<or> json r = Some JNull)"
    if "cat = Some c \<and> c \<noteq> [] \<and> encodeURIComponent c = Inr encoded \<and>
        fetchP (BASE @ ''/products/category/'' @ encoded @ ''?limit=100'') = Inr r"
    for r c encoded
  proof -
    from that
    have f: "fetchP (BASE @ ''/products/category/'' @ encoded @ ''?limit=100'') = Inr r"
      by simp
    from that isl_products_result
           [where fetch = fetchP
              and url = "BASE @ ''/products/category/'' @ encoded @ ''?limit=100''"
              and res = r and requests = requests, OF f]
    show ?thesis by (simp add: getProducts_unfold)
  qed
qed

text \<open>The theorem at a successful response with a product list.\<close>

theorem fetchJson_result_witness:
  "ok sample_response \<and>
   fst (fetchJson (\<lambda>url. Inr sample_response) ''https://dummyjson.com/products?limit=100'' []) =
     Inr (JObj [(''products'', sample_products), (''total'', JNum 1), (''skip'', JNum 0),
                (''limit'', JNum 100)]) \<and>
   snd (fetchJson (\<lambda>url. Inr sample_response) ''https://dummyjson.com/products?limit=100'' []) =
     [''https://dummyjson.com/products?limit=100'']"
proof -
  have o: "ok sample_response"
    by (simp add: ok_def sample_response_def)
  have j: "json sample_response =
             Some (JObj [(''products'', sample_products), (''total'', JNum 1),
                         (''skip'', JNum 0), (''limit'', JNum 100)])"
    by (simp add: sample_response_def)
  from fetchJson_result
         [where fetch = "\<lambda>url. Inr sample_response" and res = sample_response
            and url = "''https://dummyjson.com/products?limit=100''" and requests = "[]"]
       o j
  show ?thesis by simp
qed

section \<open>C8: the URL \<open>getProducts\<close> requests\<close>

text \<open>
  C8 as stated fails. The category is not put into the path as it is, but
  percent-encoded: for the category \<^verbatim>\<open>a b\<close> the URL requested has \<^verbatim>\<open>a%20b\<close> in its path.
  For a category that is a lone surrogate no URL is requested at all: the encoding
  throws. And on a response whose body is \<^verbatim>\<open>null\<close> nothing is returned: reading the
  products field throws.
\<close>

theorem getProducts_encodes_category:
  "snd (getProducts (\<lambda>url. Inr sample_response) (Some (code_units ''a b'')) []) =
     [''https://dummyjson.com/products/category/a%20b?limit=100''] \<and>
   snd (getProducts (\<lambda>url. Inr sample_response) (Some (code_units ''a b'')) []) \<noteq>
     [''https://dummyjson.com'' @ ''/products/category/'' @ ''a b'' @ ''?limit=100''] \<and>
   getProducts (\<lambda>url. Inr sample_response) (Some [0xD800]) [] = (Inl URIError, []) \<and>
   fst (getProducts (\<lambda>url. Inr \<lparr>status = 200, json = Some JNull\<rparr>) None []) = Inl TypeError"
proof -
  have n: "code_units ''a b'' \<noteq> []" by (simp add: code_units_def)
  have a: "snd (getProducts (\<lambda>url. Inr sample_response) (Some (code_units ''a b'')) []) =
     [''https://dummyjson.com/products/category/a%20b?limit=100'']"
    using n by (simp add: getProducts_unfold encode_space BASE_def)
  have b: "getProducts (\<lambda>url. Inr sample_response) (Some [0xD800]) [] = (Inl URIError, [])"
    by (simp add: getProducts_unfold uriUnreserved_def isLeadingSurrogate_def)
  have c: "fst (getProducts (\<lambda>url. Inr \<lparr>status = 200, json = Some JNull\<rparr>) None []) =
     Inl TypeError"
    by (simp add: getProducts_unfold fetchJson_def ok_def)
  from a b c show ?thesis by simp
qed

text \<open>
  C8, amended. For every category argument: when the category is null or empty,
  \<open>getProducts\<close> requests exactly the URL \<^verbatim>\<open>{base}/products?limit=100\<close>; when a category is
  given and it is well formed (has no unpaired surrogate), it requests exactly the URL
  \<^verbatim>\<open>{base}/products/category/{c}?limit=100\<close>, where \<^verbatim>\<open>{c}\<close> is the category percent-encoded
  by \<^verbatim>\<open>encodeURIComponent\<close>, which is the category itself when it has only unreserved
  characters; when a category is given that is not well formed, it raises a
  \<^verbatim>\<open>URIError\<close> and requests nothing. Where it makes a request it fails as \<open>fetchJson\<close>
  does, and on a parsed body it returns the products field of the body (undefined when
  the body has none), or raises a \<^verbatim>\<open>TypeError\<close> when the body is \<^verbatim>\<open>null\<close>.
\<close>

theorem getProducts_request:
  "(cat = None \<or> cat = Some [] \<longrightarrow>
      snd (getProducts fetch cat requests) = requests @ [BASE @ ''/products?limit=100''] \<and>
      fst (getProducts fetch cat requests) =
        (case fst (fetchJson fetch (BASE @ ''/products?limit=100'') requests) of
           Inl e \<Rightarrow> Inl e | Inr data \<Rightarrow> get_products data)) \<and>
   (\<forall>c. cat = Some c \<and> c \<noteq> [] \<and> isWellFormed c \<longrightarrow>
      (\<exists>encoded. encodeURIComponent c = Inr encoded \<and>
         snd (getProducts fetch cat requests) =
           requests @ [BASE @ ''/products/category/'' @ encoded @ ''?limit=100''] \<and>
         fst (getProducts fetch cat requests) =
           (case fst (fetchJson fetch
                        (BASE @ ''/products/category/'' @ encoded @ ''?limit=100'') requests) of
              Inl e \<Rightarrow> Inl e | Inr data \<Rightarrow> get_products data))) \<and>
   (\<forall>c. cat = Some c \<and> c \<noteq> [] \<and> \<not> isWellFormed c \<longrightarrow>
      getProducts fetch cat requests = (Inl URIError, requests)) \<and>
   (\<forall>c. list_all uriUnreserved c \<longrightarrow> encodeURIComponent c = Inr (map char_of c)) \<and>
   get_products JNull = Inl TypeError \<and>
   (\<forall>props. get_products (JObj props) = Inr (map_of props ''products''))"
proof (intro conjI allI impI)
  show "snd (getProducts fetch cat requests) = requests @ [BASE @ ''/products?limit=100'']"
    if "cat = None \<or> cat = Some []"
    using that by (auto simp: getProducts_unfold)
  show "fst (getProducts fetch cat requests) =
        (case fst (fetchJson fetch (BASE @ ''/products?limit=100'') requests) of
           Inl e \<Rightarrow> Inl e | Inr data \<Rightarrow> get_products data)"
    if "cat = None \<or> cat = Some []"
    using that by (auto simp: getProducts_unfold)
  show "\<exists>encoded. encodeURIComponent c = Inr encoded \<and>
         snd (getProducts fetch cat requests) =
           requests @ [BASE @ ''/products/category/'' @ encoded @ ''?limit=100''] \<and>
         fst (getProducts fetch cat requests) =
           (case fst (fetchJson fetch
                        (BASE @ ''/products/category/'' @ encoded @ ''?limit=100'') requests) of
              Inl e \<Rightarrow> Inl e | Inr data \<Rightarrow> get_products data)"
    if "cat = Some c \<and> c \<noteq> [] \<and> isWellFormed c" for c
  proof -
    from that have "\<not> isl (encodeURIComponent c)"
      by (simp add: encodeURIComponent_fails)
    then obtain encoded where e: "encodeURIComponent c = Inr encoded"
      by (cases "encodeURIComponent c") simp_all
    with that show ?thesis by (simp add: getProducts_unfold)
  qed
  show "getProducts fetch cat requests = (Inl URIError, requests)"
    if "cat = Some c \<and> c \<noteq> [] \<and> \<not> isWellFormed c" for c
  proof -
    from that have "isl (encodeURIComponent c)"
      by (simp add: encodeURIComponent_fails)
    then obtain e where e: "encodeURIComponent c = Inl e"
      by (cases "encodeURIComponent c") simp_all
    with encodeURIComponent_error [OF e] that show ?thesis
      by (simp add: getProducts_unfold)
  qed
  show "encodeURIComponent c = Inr (map char_of c)" if "list_all uriUnreserved c" for c
    using that by (rule encodeURIComponent_unreserved)
  show "get_products JNull = Inl TypeError" by simp
  show "get_products (JObj props) = Inr (map_of props ''products'')" for props by simp
qed

text \<open>The theorem at the category \<^verbatim>\<open>phones\<close> and a successful response.\<close>

theorem getProducts_request_witness:
  "list_all uriUnreserved (code_units ''phones'') \<and> isWellFormed (code_units ''phones'') \<and>
   snd (getProducts (\<lambda>url. Inr sample_response) (Some (code_units ''phones'')) []) =
     [''https://dummyjson.com/products/category/phones?limit=100''] \<and>
   fst (getProducts (\<lambda>url. Inr sample_response) (Some (code_units ''phones'')) []) =
     Inr (Some sample_products)"
proof -
  let ?c = "code_units ''phones''"
  let ?f = "\<lambda>url::string. Inr sample_response :: error + Response"
  note t = getProducts_request [where cat = "Some ?c" and fetch = ?f and requests = "[]"]
  have u: "list_all uriUnreserved ?c" by (rule unreserved_phones)
  have n: "?c \<noteq> []" by (simp add: code_units_def)
  from t u have enc: "encodeURIComponent ?c = Inr ''phones''"
    by (simp add: chars_phones)
  then have w: "isWellFormed ?c"
    using encodeURIComponent_fails [of ?c] by simp
  from t n w enc
  have a: "snd (getProducts ?f (Some ?c) []) =
             [BASE @ ''/products/category/'' @ ''phones'' @ ''?limit=100'']"
    and b: "fst (getProducts ?f (Some ?c) []) =
             (case fst (fetchJson ?f (BASE @ ''/products/category/'' @ ''phones'' @ ''?limit=100'')
                          []) of
                Inl e \<Rightarrow> Inl e | Inr data \<Rightarrow> get_products data)"
    by auto
  have f: "fst (fetchJson ?f url []) =
             Inr (JObj [(''products'', sample_products), (''total'', JNum 1),
                        (''skip'', JNum 0), (''limit'', JNum 100)])"
    for url :: string
    by (simp add: fetchJson_def ok_def sample_response_def)
  from b have b': "fst (getProducts ?f (Some ?c) []) = Inr (Some sample_products)"
    by (simp add: f)
  from a have a': "snd (getProducts ?f (Some ?c) []) =
     [''https://dummyjson.com/products/category/phones?limit=100'']"
    by (simp add: BASE_def)
  from u w a' b' show ?thesis by (intro conjI)
qed

section \<open>The URL query and the filter state\<close>

lemma route_query_write:
  "route_query (writeStateToRoute s) =
     (route_query s)
       (''category'' := (case selectedCategory s of None \<Rightarrow> None | Some c \<Rightarrow> Some (Str c)),
        ''sort'' := (if selectedSort s = sortKeyValue DEFAULT_SORT then None
                     else Some (Str (selectedSort s))))"
  by (auto simp: writeStateToRoute_def router_replace_def DEFAULT_CATEGORY_def Let_def
      split: option.splits)

lemma selected_write:
  "selectedCategory (writeStateToRoute s) = selectedCategory s"
  "selectedSort (writeStateToRoute s) = selectedSort s"
  "categoriesData (writeStateToRoute s) = categoriesData s"
  by (simp_all add: writeStateToRoute_def router_replace_def Let_def)

lemma categories_write: "categories (writeStateToRoute s) = categories s"
  by (simp add: categories_def selected_write)

lemma isSortKey_None: "\<not> isSortKey None"
  by (simp add: isSortKey_def)



lemma read_facts:
  shows selectedSort_read:
    "selectedSort (readRouteToStateAndClean s) =
       (if isSortKey (asSingleString (route_query s ''sort''))
        then the (asSingleString (route_query s ''sort''))
        else sortKeyValue DEFAULT_SORT)"
  and selectedCategory_read:
    "selectedCategory (readRouteToStateAndClean s) =
       (if asSingleString (route_query s ''category'') = None \<or>
           asSingleString (route_query s ''category'') = Some [] \<or>
           asSingleString (route_query s ''category'') = Some ''all products''
        then None
        else if categories s \<noteq> [] \<and>
                isValidCategoryParam s (asSingleString (route_query s ''category''))
        then asSingleString (route_query s ''category'')
        else None)"
  and categoriesData_read:
    "categoriesData (readRouteToStateAndClean s) = categoriesData s"
  and sort_cleaned:
    "asSingleString (route_query s ''sort'') = Some v \<Longrightarrow> v \<noteq> [] \<Longrightarrow> \<not> isSortKey (Some v) \<Longrightarrow>
       route_query (readRouteToStateAndClean s) ''sort'' = None"
  and category_cleaned:
    "asSingleString (route_query s ''category'') = Some c \<Longrightarrow> c \<notin> set (categories s) \<Longrightarrow>
       categories s \<noteq> [] \<Longrightarrow> c \<noteq> [] \<Longrightarrow> c \<noteq> ''all products'' \<Longrightarrow>
       route_query (readRouteToStateAndClean s) ''category'' = None"
  and query_kept:
    "asSingleString (route_query s ''sort'') \<in> {None, Some []} \<union> {w. isSortKey w} \<Longrightarrow>
     asSingleString (route_query s ''category'') \<in> {None, Some [], Some ''all products''} \<union>
        {Some c | c. categories s = [] \<or> c \<in> set (categories s)} \<Longrightarrow>
       route_query (readRouteToStateAndClean s) = route_query s"
proof -
  define rawCategory where "rawCategory = asSingleString (route_query s ''category'')"
  define rawSort where "rawSort = asSingleString (route_query s ''sort'')"
  define nextSort where
    "nextSort = (if isSortKey rawSort then the rawSort else sortKeyValue DEFAULT_SORT)"
  define nextCategory where
    "nextCategory =
       (if rawCategory = None \<or> rawCategory = Some [] \<or> rawCategory = Some ''all products''
        then DEFAULT_CATEGORY
        else if length (categories s) > 0 then
          (if isValidCategoryParam s rawCategory then rawCategory else DEFAULT_CATEGORY)
        else DEFAULT_CATEGORY)"
  define s1 where
    "s1 = (if nextSort \<noteq> selectedSort s \<or> nextCategory \<noteq> selectedCategory s
           then s\<lparr>selectedSort := nextSort, selectedCategory := nextCategory\<rparr> else s)"
  have r: "readRouteToStateAndClean s =
       (if (length (categories s) > 0 \<and> rawCategory \<noteq> None \<and> rawCategory \<noteq> Some [] \<and>
            rawCategory \<noteq> Some ''all products'' \<and> \<not> isValidCategoryParam s rawCategory) \<or>
           (rawSort \<noteq> None \<and> rawSort \<noteq> Some [] \<and> \<not> isSortKey rawSort)
        then writeStateToRoute s1 else s1)"
    by (simp only: readRouteToStateAndClean_def Let_def s1_def nextSort_def nextCategory_def
          rawSort_def rawCategory_def)
  have a: "selectedSort s1 = nextSort" by (simp add: s1_def)
  have b: "selectedCategory s1 = nextCategory" by (simp add: s1_def)
  have c: "categoriesData s1 = categoriesData s" by (simp add: s1_def)
  have d: "route_query s1 = route_query s" by (simp add: s1_def)
  have n: "nextCategory =
       (if rawCategory = None \<or> rawCategory = Some [] \<or> rawCategory = Some ''all products''
        then None
        else if categories s \<noteq> [] \<and> isValidCategoryParam s rawCategory then rawCategory
        else None)"
    by (simp add: nextCategory_def DEFAULT_CATEGORY_def)
  have ns: "nextSort = sortKeyValue DEFAULT_SORT" if "\<not> isSortKey rawSort"
    using that by (simp add: nextSort_def)
  show "selectedSort (readRouteToStateAndClean s) =
       (if isSortKey (asSingleString (route_query s ''sort''))
        then the (asSingleString (route_query s ''sort''))
        else sortKeyValue DEFAULT_SORT)"
    unfolding r rawSort_def [symmetric]
    using a by (simp add: selected_write nextSort_def)
  show "selectedCategory (readRouteToStateAndClean s) =
       (if asSingleString (route_query s ''category'') = None \<or>
           asSingleString (route_query s ''category'') = Some [] \<or>
           asSingleString (route_query s ''category'') = Some ''all products''
        then None
        else if categories s \<noteq> [] \<and>
                isValidCategoryParam s (asSingleString (route_query s ''category''))
        then asSingleString (route_query s ''category'')
        else None)"
    unfolding r rawCategory_def [symmetric]
    using b n by (simp add: selected_write)
  show "categoriesData (readRouteToStateAndClean s) = categoriesData s"
    unfolding r using c by (simp add: selected_write)
  show "route_query (readRouteToStateAndClean s) ''sort'' = None"
    if "asSingleString (route_query s ''sort'') = Some v" and "v \<noteq> []" and "\<not> isSortKey (Some v)"
  proof -
    from that have "rawSort = Some v" by (simp add: rawSort_def)
    with that have clean: "rawSort \<noteq> None \<and> rawSort \<noteq> Some [] \<and> \<not> isSortKey rawSort"
      by simp
    with ns have "selectedSort s1 = sortKeyValue DEFAULT_SORT" using a by simp
    with clean show ?thesis unfolding r by (simp add: route_query_write)
  qed
  show "route_query (readRouteToStateAndClean s) ''category'' = None"
    if "asSingleString (route_query s ''category'') = Some c" and "c \<notin> set (categories s)"
      and "categories s \<noteq> []" and "c \<noteq> []" and "c \<noteq> ''all products''"
  proof -
    from that have rc: "rawCategory = Some c" by (simp add: rawCategory_def)
    with that have inv: "\<not> isValidCategoryParam s rawCategory"
      by (simp add: isValidCategoryParam_def)
    with rc that have "nextCategory = None" by (simp add: n)
    with b have "selectedCategory s1 = None" by simp
    with rc inv that show ?thesis unfolding r by (simp add: route_query_write)
  qed
  show "route_query (readRouteToStateAndClean s) = route_query s"
    if "asSingleString (route_query s ''sort'') \<in> {None, Some []} \<union> {w. isSortKey w}"
      and "asSingleString (route_query s ''category'') \<in> {None, Some [], Some ''all products''} \<union>
        {Some c | c. categories s = [] \<or> c \<in> set (categories s)}"
  proof -
    from that(1) have 1: "\<not> (rawSort \<noteq> None \<and> rawSort \<noteq> Some [] \<and> \<not> isSortKey rawSort)"
      by (auto simp: rawSort_def)
    from that(2) have 2: "\<not> (length (categories s) > 0 \<and> rawCategory \<noteq> None \<and>
        rawCategory \<noteq> Some [] \<and> rawCategory \<noteq> Some ''all products'' \<and>
        \<not> isValidCategoryParam s rawCategory)"
      by (auto simp: rawCategory_def isValidCategoryParam_def)
    from 1 2 show ?thesis unfolding r using d by auto
  qed
qed


section \<open>C5: the query \<open>writeStateToRoute\<close> writes\<close>

text \<open>
  C5. For every filter state, the query that \<open>writeStateToRoute\<close> writes has the category
  parameter if and only if the selected category is not null, and then its value is the
  selected category; it has the sort parameter if and only if the selected sort is not the
  default \<^verbatim>\<open>title-asc\<close>, and then its value is the selected sort key.
\<close>

theorem writeStateToRoute_omits_defaults:
  "(route_query (writeStateToRoute s) ''category'' \<noteq> None) = (selectedCategory s \<noteq> None) \<and>
   (\<forall>c. selectedCategory s = Some c \<longrightarrow>
        route_query (writeStateToRoute s) ''category'' = Some (Str c)) \<and>
   (route_query (writeStateToRoute s) ''sort'' \<noteq> None) =
     (selectedSort s \<noteq> sortKeyValue DEFAULT_SORT) \<and>
   (selectedSort s \<noteq> sortKeyValue DEFAULT_SORT \<longrightarrow>
        route_query (writeStateToRoute s) ''sort'' = Some (Str (selectedSort s))) \<and>
   sortKeyValue DEFAULT_SORT = ''title-asc''"
  by (simp add: route_query_write DEFAULT_SORT_def split: option.splits)

text \<open>The theorem at the category \<^verbatim>\<open>phones\<close> and the sort \<^verbatim>\<open>price-desc\<close>.\<close>

theorem writeStateToRoute_omits_defaults_witness:
  "selectedCategory (sample_page Map.empty (Some ''phones'') ''price-desc'' [''phones'']) =
     Some ''phones'' \<and>
   selectedSort (sample_page Map.empty (Some ''phones'') ''price-desc'' [''phones'']) \<noteq>
     sortKeyValue DEFAULT_SORT \<and>
   route_query
     (writeStateToRoute (sample_page Map.empty (Some ''phones'') ''price-desc'' [''phones'']))
     ''category'' = Some (Str ''phones'') \<and>
   route_query
     (writeStateToRoute (sample_page Map.empty (Some ''phones'') ''price-desc'' [''phones'']))
     ''sort'' = Some (Str ''price-desc'')"
  using writeStateToRoute_omits_defaults
          [of "sample_page Map.empty (Some ''phones'') ''price-desc'' [''phones'']"]
  by (simp add: sample_page_def DEFAULT_SORT_def)

section \<open>C10: the other parameters of the query\<close>

text \<open>
  C10. For every current query, \<open>writeStateToRoute\<close> leaves every parameter other than
  \<^verbatim>\<open>category\<close> and \<^verbatim>\<open>sort\<close> as it was: present with the same value, or absent.
\<close>

theorem writeStateToRoute_other_parameters:
  "\<forall>k. k \<noteq> ''category'' \<and> k \<noteq> ''sort'' \<longrightarrow>
       route_query (writeStateToRoute s) k = route_query s k"
  by (simp add: route_query_write)

text \<open>The theorem at the query \<^verbatim>\<open>?page=2\<close> and the parameter \<^verbatim>\<open>page\<close>.\<close>

theorem writeStateToRoute_other_parameters_witness:
  "''page'' \<noteq> ''category'' \<and> ''page'' \<noteq> ''sort'' \<and>
   route_query
     (writeStateToRoute
        (sample_page [''page'' \<mapsto> Str ''2''] (Some ''phones'') ''price-desc'' [''phones'']))
     ''page'' = Some (Str ''2'')"
  using writeStateToRoute_other_parameters
          [of "sample_page [''page'' \<mapsto> Str ''2''] (Some ''phones'') ''price-desc'' [''phones'']",
           THEN spec, of "''page''"]
  by (simp add: sample_page_def)

section \<open>C3: writing the state and reading it back\<close>

text \<open>
  C3 as stated fails where the loaded category list has the empty string as a member.
  The select then offers it; chosen, the handler stores it as the selected category, a
  member of the list; it is written to the URL as \<^verbatim>\<open>category=\<close>; and the read takes the
  empty parameter for no category.
\<close>

theorem round_trip_empty_category:
  "[] \<in> set (categoryOptions (sample_page Map.empty None ''title-asc'' [[], ''phones''])) \<and>
   selectedCategory
     (onCategoryChange [] (sample_page Map.empty None ''title-asc'' [[], ''phones''])) =
     Some [] \<and>
   [] \<in> set (categories
     (onCategoryChange [] (sample_page Map.empty None ''title-asc'' [[], ''phones'']))) \<and>
   route_query
     (writeStateToRoute
        (onCategoryChange [] (sample_page Map.empty None ''title-asc'' [[], ''phones''])))
     ''category'' = Some (Str []) \<and>
   selectedCategory
     (readRouteToStateAndClean
        (writeStateToRoute
           (onCategoryChange [] (sample_page Map.empty None ''title-asc'' [[], ''phones''])))) =
     None"
  by (simp add: selectedCategory_read route_query_write categories_write)
     (simp add: sample_page_def categories_def categoryOptions_def onCategoryChange_def)

text \<open>
  C3, amended. For every filter state whose category is null or a member of the loaded
  category list other than the empty string (and other than the text \<^verbatim>\<open>all products\<close>,
  which no operation of the page stores as a category), and whose sort key is one of the
  four known values, given that the category list has loaded: after that state is
  written into the URL query, reading the query back restores exactly the same category
  and sort, whatever the filter state held when the query is read, be it the state of
  the page that wrote the query or the defaults of a page just loaded. (A category that
  is a member of the list makes the list a loaded one, and for no category the list is
  not looked at, so the theorem needs no hypothesis on the list.)
\<close>

theorem round_trip:
  assumes "selectedCategory s = None \<or> (\<exists>c. selectedCategory s = Some c \<and> c \<in> set (categories s))"
    and "selectedCategory s \<noteq> Some []" and "selectedCategory s \<noteq> Some ''all products''"
    and "isSortKey (Some (selectedSort s))"
    and "route_query s' = route_query (writeStateToRoute s)"
    and "categories s' = categories s"
  shows "selectedCategory (readRouteToStateAndClean s') = selectedCategory s \<and>
         selectedSort (readRouteToStateAndClean s') = selectedSort s"
proof
  show "selectedCategory (readRouteToStateAndClean s') = selectedCategory s"
    using assms(1,2,3)
    by (auto simp: selectedCategory_read [of s'] assms(5,6) route_query_write
          isValidCategoryParam_def)
  show "selectedSort (readRouteToStateAndClean s') = selectedSort s"
    using assms(4)
    by (simp add: selectedSort_read [of s'] assms(5) route_query_write isSortKey_None)
qed

text \<open>
  The theorem at the category \<^verbatim>\<open>phones\<close> and the sort \<^verbatim>\<open>price-desc\<close>, read by a page that
  holds the defaults.
\<close>

theorem round_trip_witness:
  "''phones'' \<in> set (categories (sample_page Map.empty (Some ''phones'') ''price-desc''
      [''phones''])) \<and>
   isSortKey (Some ''price-desc'') \<and>
   selectedCategory
     (readRouteToStateAndClean
        (sample_page
           (route_query
              (writeStateToRoute
                 (sample_page Map.empty (Some ''phones'') ''price-desc'' [''phones''])))
           None ''title-asc'' [''phones''])) = Some ''phones'' \<and>
   selectedSort
     (readRouteToStateAndClean
        (sample_page
           (route_query
              (writeStateToRoute
                 (sample_page Map.empty (Some ''phones'') ''price-desc'' [''phones''])))
           None ''title-asc'' [''phones''])) = ''price-desc''"
proof -
  let ?s = "sample_page Map.empty (Some ''phones'') ''price-desc'' [''phones'']"
  let ?s' = "sample_page (route_query (writeStateToRoute ?s)) None ''title-asc'' [''phones'']"
  have m: "''phones'' \<in> set (categories ?s)"
    by (simp add: sample_page_def categories_def)
  have k: "isSortKey (Some ''price-desc'')"
    by (simp add: isSortKey_def SORT_OPTIONS_def)
  have 1: "selectedCategory ?s = None \<or>
           (\<exists>c. selectedCategory ?s = Some c \<and> c \<in> set (categories ?s))"
    by (simp add: sample_page_def categories_def)
  have 2: "selectedCategory ?s \<noteq> Some []" and 3: "selectedCategory ?s \<noteq> Some ''all products''"
    by (simp_all add: sample_page_def)
  have 4: "isSortKey (Some (selectedSort ?s))"
    using k by (simp add: sample_page_def)
  have 5: "route_query ?s' = route_query (writeStateToRoute ?s)"
    by (simp add: sample_page_def)
  have 6: "categories ?s' = categories ?s"
    by (simp add: sample_page_def categories_def)
  from round_trip [OF 1 2 3 4 5 6]
  have "selectedCategory (readRouteToStateAndClean ?s') = Some ''phones''"
    and "selectedSort (readRouteToStateAndClean ?s') = ''price-desc''"
    by (simp_all add: sample_page_def)
  with m k show ?thesis by (intro conjI)
qed

section \<open>C4: reading a query with unknown parameters\<close>

text \<open>
  C4 as stated fails: a sort parameter that is the empty string is not a sort key, and a
  category parameter \<^verbatim>\<open>all products\<close> is not a member of the loaded list; both are read as
  the default, and both stay in the URL query.
\<close>

theorem read_keeps_empty_sort_and_sentinel_category:
  "\<not> isSortKey (asSingleString
        (route_query (sample_page [''sort'' \<mapsto> Str []] None ''title-asc'' [''phones'']) ''sort'')) \<and>
   route_query
     (readRouteToStateAndClean (sample_page [''sort'' \<mapsto> Str []] None ''title-asc'' [''phones'']))
     ''sort'' = Some (Str []) \<and>
   ''all products'' \<notin> set (categories
        (sample_page [''category'' \<mapsto> Str ''all products''] None ''title-asc'' [''phones''])) \<and>
   route_query
     (readRouteToStateAndClean
        (sample_page [''category'' \<mapsto> Str ''all products''] None ''title-asc'' [''phones'']))
     ''category'' = Some (Str ''all products'')"
proof -
  have 1: "route_query
     (readRouteToStateAndClean (sample_page [''sort'' \<mapsto> Str []] None ''title-asc'' [''phones''])) =
     route_query (sample_page [''sort'' \<mapsto> Str []] None ''title-asc'' [''phones''])"
    by (rule query_kept) (simp_all add: sample_page_def)
  have 2: "route_query
     (readRouteToStateAndClean
        (sample_page [''category'' \<mapsto> Str ''all products''] None ''title-asc'' [''phones''])) =
     route_query (sample_page [''category'' \<mapsto> Str ''all products''] None ''title-asc'' [''phones''])"
    by (rule query_kept) (simp_all add: sample_page_def)
  show ?thesis
    unfolding 1 2 by (simp add: sample_page_def categories_def isSortKey_def SORT_OPTIONS_def)
qed

text \<open>
  C4, amended. Reading a query raises no error. For every query whose sort parameter (the
  first value, when it is given several times) is not one of the four sort keys, reading
  sets the selected sort to the default \<^verbatim>\<open>title-asc\<close>, and removes the sort parameter from
  the URL query when its value is a non-empty string. For every query whose category
  parameter is not a member of the loaded category list, reading sets the selected
  category to the default null, and removes the category parameter from the URL query
  when the category list is loaded (not empty) and the value is a non-empty string other
  than \<^verbatim>\<open>all products\<close>.
\<close>

theorem read_normalizes:
  "(\<not> isSortKey (asSingleString (route_query s ''sort'')) \<longrightarrow>
      selectedSort (readRouteToStateAndClean s) = sortKeyValue DEFAULT_SORT) \<and>
   (\<forall>v. asSingleString (route_query s ''sort'') = Some v \<and> v \<noteq> [] \<and> \<not> isSortKey (Some v) \<longrightarrow>
      route_query (readRouteToStateAndClean s) ''sort'' = None) \<and>
   (\<forall>c. asSingleString (route_query s ''category'') = Some c \<and> c \<notin> set (categories s) \<longrightarrow>
      selectedCategory (readRouteToStateAndClean s) = DEFAULT_CATEGORY) \<and>
   (\<forall>c. asSingleString (route_query s ''category'') = Some c \<and> c \<notin> set (categories s) \<and>
        categories s \<noteq> [] \<and> c \<noteq> [] \<and> c \<noteq> ''all products'' \<longrightarrow>
      route_query (readRouteToStateAndClean s) ''category'' = None)"
proof (intro conjI allI impI)
  show "selectedSort (readRouteToStateAndClean s) = sortKeyValue DEFAULT_SORT"
    if "\<not> isSortKey (asSingleString (route_query s ''sort''))"
    using that by (simp add: selectedSort_read)
  show "route_query (readRouteToStateAndClean s) ''sort'' = None"
    if "asSingleString (route_query s ''sort'') = Some v \<and> v \<noteq> [] \<and> \<not> isSortKey (Some v)" for v
    using that
    by (auto simp: readRouteToStateAndClean_def Let_def route_query_write)
  show "selectedCategory (readRouteToStateAndClean s) = DEFAULT_CATEGORY"
    if "asSingleString (route_query s ''category'') = Some c \<and> c \<notin> set (categories s)" for c
    using that by (auto simp: selectedCategory_read isValidCategoryParam_def DEFAULT_CATEGORY_def)
  show "route_query (readRouteToStateAndClean s) ''category'' = None"
    if "asSingleString (route_query s ''category'') = Some c \<and> c \<notin> set (categories s) \<and>
        categories s \<noteq> [] \<and> c \<noteq> [] \<and> c \<noteq> ''all products''" for c
    using that
    by (auto simp: readRouteToStateAndClean_def Let_def route_query_write isValidCategoryParam_def
          DEFAULT_CATEGORY_def)
qed

text \<open>The theorem at the query \<^verbatim>\<open>?sort=newest&category=shoes\<close>.\<close>

theorem read_normalizes_witness:
  "\<not> isSortKey (Some ''newest'') \<and> ''shoes'' \<notin> set [''phones''] \<and>
   selectedSort
     (readRouteToStateAndClean
        (sample_page [''sort'' \<mapsto> Str ''newest'', ''category'' \<mapsto> Str ''shoes'']
           (Some ''phones'') ''price-desc'' [''phones''])) = ''title-asc'' \<and>
   selectedCategory
     (readRouteToStateAndClean
        (sample_page [''sort'' \<mapsto> Str ''newest'', ''category'' \<mapsto> Str ''shoes'']
           (Some ''phones'') ''price-desc'' [''phones''])) = None \<and>
   route_query
     (readRouteToStateAndClean
        (sample_page [''sort'' \<mapsto> Str ''newest'', ''category'' \<mapsto> Str ''shoes'']
           (Some ''phones'') ''price-desc'' [''phones''])) ''sort'' = None \<and>
   route_query
     (readRouteToStateAndClean
        (sample_page [''sort'' \<mapsto> Str ''newest'', ''category'' \<mapsto> Str ''shoes'']
           (Some ''phones'') ''price-desc'' [''phones''])) ''category'' = None"
proof -
  let ?s = "sample_page [''sort'' \<mapsto> Str ''newest'', ''category'' \<mapsto> Str ''shoes'']
              (Some ''phones'') ''price-desc'' [''phones'']"
  have a: "asSingleString (route_query ?s ''sort'') = Some ''newest''"
    and b: "asSingleString (route_query ?s ''category'') = Some ''shoes''"
    and c: "categories ?s = [''phones'']"
    by (simp_all add: sample_page_def categories_def)
  have k: "\<not> isSortKey (Some ''newest'')"
    by (simp add: isSortKey_def SORT_OPTIONS_def)
  from read_normalizes [of ?s] a b c k show ?thesis
    by (simp add: DEFAULT_SORT_def DEFAULT_CATEGORY_def)
qed

section \<open>C6: the invariant of the filter state\<close>



end
